theory Spec2Isabelle
  imports Complex_Main "HOL-Library.AList"
begin

section \<open>JavaScript values\<close>

text \<open>
  The client (\<^verbatim>\<open>frontend/src/App.tsx\<close>) keeps the OCR result, the analysis result and
  the parsed replies of the server as values of type \<^verbatim>\<open>any\<close>. They are modelled as
  JavaScript values. A finite number carries its exact rational value; the rounding of a
  double's mantissa is not modelled, its underflow to zero and overflow to infinity are
  (see \<open>to_double\<close>). \<open>JInf True\<close> is \<^verbatim>\<open>Infinity\<close>, \<open>JInf False\<close> is \<^verbatim>\<open>-Infinity\<close>.
  An object is the list of its own properties in insertion order.
\<close>

datatype js =
    JUndefined
  | JNull
  | JBool bool
  | JNum rat
  | JNaN
  | JInf bool
  | JStr string
  | JArr "js list"
  | JObj "(string \<times> js) list"

text \<open>Truthiness, as \<^verbatim>\<open>if (v)\<close>, \<^verbatim>\<open>v && e\<close> and \<^verbatim>\<open>v || e\<close> test it.\<close>

fun truthy :: "js \<Rightarrow> bool" where
  "truthy JUndefined = False"
| "truthy JNull = False"
| "truthy (JBool b) = b"
| "truthy (JNum r) = (r \<noteq> 0)"
| "truthy JNaN = False"
| "truthy (JInf b) = True"
| "truthy (JStr s) = (s \<noteq> [])"
| "truthy (JArr xs) = True"
| "truthy (JObj kvs) = True"

definition js_or :: "js \<Rightarrow> js \<Rightarrow> js" where
  "js_or a b = (if truthy a then a else b)"

text \<open>
  Reading a property \<^verbatim>\<open>v.k\<close>. On \<^verbatim>\<open>null\<close> and \<^verbatim>\<open>undefined\<close> it throws a TypeError
  (\<open>Inl\<close> carries the message, in V8's wording); on an object it is the own property
  or \<^verbatim>\<open>undefined\<close>; on any other value it is \<^verbatim>\<open>undefined\<close>, which is right for
  the keys the client reads, none of which is an inherited property.
\<close>

definition type_error_message :: "string \<Rightarrow> string \<Rightarrow> string" where
  "type_error_message what k =
     ''Cannot read properties of '' @ what @ '' (reading '' @ [CHR 0x27] @ k @ [CHR 0x27] @ '')''"

fun get_prop :: "js \<Rightarrow> string \<Rightarrow> string + js" where
  "get_prop JUndefined k = Inl (type_error_message ''undefined'' k)"
| "get_prop JNull k = Inl (type_error_message ''null'' k)"
| "get_prop (JObj kvs) k = Inr (case map_of kvs k of None \<Rightarrow> JUndefined | Some v \<Rightarrow> v)"
| "get_prop v k = Inr JUndefined"

subsection \<open>parseFloat\<close>

text \<open>
  \<^verbatim>\<open>parseFloat\<close> skips leading white space and reads the longest prefix that is a
  decimal literal: an optional sign, then \<^verbatim>\<open>Infinity\<close> or digits with an optional
  fraction and exponent. No such prefix gives \<^verbatim>\<open>NaN\<close>. Characters are bytes here, so
  the white space is the ASCII part of the language's list.
\<close>

definition is_ws :: "char \<Rightarrow> bool" where
  "is_ws c = (c \<in> set [CHR 0x09, CHR 0x0A, CHR 0x0B, CHR 0x0C, CHR 0x0D, CHR 0x20])"

definition is_digit :: "char \<Rightarrow> bool" where
  "is_digit c = (48 \<le> (of_char c :: nat) \<and> (of_char c :: nat) \<le> 57)"

definition digits_val :: "string \<Rightarrow> nat" where
  "digits_val ds = foldl (\<lambda>a c. 10 * a + ((of_char c :: nat) - 48)) 0 ds"

definition pow10 :: "int \<Rightarrow> rat" where
  "pow10 k = (if 0 \<le> k then 10 ^ nat k else 1 / 10 ^ nat (- k))"

text \<open>
  Rounding to a double, as far as it decides what kind of value comes out: a magnitude
  of at most \<open>2\<^sup>-\<^sup>1\<^sup>0\<^sup>7\<^sup>5\<close> rounds to zero, one of at least \<open>2\<^sup>1\<^sup>0\<^sup>2\<^sup>4 - 2\<^sup>9\<^sup>7\<^sup>0\<close> to
  infinity.
\<close>

definition to_double :: "rat \<Rightarrow> js" where
  "to_double v =
     (if \<bar>v\<bar> \<le> 1 / 2 ^ 1075 then JNum 0
      else if 2 ^ 1024 - 2 ^ 970 \<le> \<bar>v\<bar> then JInf (0 < v)
      else JNum v)"

definition exponent_part :: "string \<Rightarrow> int" where
  "exponent_part r =
     (case r of
        [] \<Rightarrow> 0
      | c # r1 \<Rightarrow>
          if c = CHR ''e'' \<or> c = CHR ''E'' then
            (case r1 of
               [] \<Rightarrow> 0
             | d # r2 \<Rightarrow>
                 if d = CHR ''+'' then
                   (if takeWhile is_digit r2 = [] then 0
                    else int (digits_val (takeWhile is_digit r2)))
                 else if d = CHR ''-'' then
                   (if takeWhile is_digit r2 = [] then 0
                    else - int (digits_val (takeWhile is_digit r2)))
                 else
                   (if takeWhile is_digit r1 = [] then 0
                    else int (digits_val (takeWhile is_digit r1))))
          else 0)"

definition decimal_value :: "string \<Rightarrow> string \<Rightarrow> int \<Rightarrow> js" where
  "decimal_value ip fp e =
     to_double (of_nat (digits_val (ip @ fp)) * pow10 (e - int (length fp)))"

definition parse_unsigned :: "string \<Rightarrow> js" where
  "parse_unsigned s =
     (if take 8 s = ''Infinity'' then JInf True
      else
        (let ip = takeWhile is_digit s; r1 = dropWhile is_digit s in
         case r1 of
           [] \<Rightarrow> if ip = [] then JNaN else decimal_value ip [] 0
         | c # r2 \<Rightarrow>
             if c = CHR ''.'' then
               (let fp = takeWhile is_digit r2; r3 = dropWhile is_digit r2 in
                if ip = [] \<and> fp = [] then JNaN
                else decimal_value ip fp (exponent_part r3))
             else if ip = [] then JNaN
             else decimal_value ip [] (exponent_part r1)))"

fun js_negate :: "js \<Rightarrow> js" where
  "js_negate (JNum r) = JNum (- r)"
| "js_negate (JInf b) = JInf (\<not> b)"
| "js_negate v = v"

definition parseFloat :: "string \<Rightarrow> js" where
  "parseFloat s =
     (case dropWhile is_ws s of
        [] \<Rightarrow> JNaN
      | c # r \<Rightarrow>
          if c = CHR ''+'' then parse_unsigned r
          else if c = CHR ''-'' then js_negate (parse_unsigned r)
          else parse_unsigned (c # r))"

section \<open>The client state\<close>

text \<open>The \<^verbatim>\<open>useState\<close> cells of \<^verbatim>\<open>App\<close>. The step \<^verbatim>\<open>'input'\<close> is the supplement stage.\<close>

datatype stage = Upload | Review | Input | Result

datatype js_file = File string

record vital_signs =
  blood_pressure_systolic :: string
  blood_pressure_diastolic :: string
  heart_rate :: string
  temperature :: string
  spo2 :: string
  respiratory_rate :: string

record anesthesia_params =
  anesthesia_type :: string
  intubated :: string
  medications :: string
  notes_field :: string

record app_state =
  step :: stage
  selectedFile :: "js_file option"
  previewUrl :: string
  ocrResult :: js
  isLoading :: bool
  error :: js
  vitalSigns :: vital_signs
  anesthesia :: anesthesia_params
  analysisResult :: js
  weight :: string

definition empty_vital_signs :: vital_signs where
  "empty_vital_signs =
     \<lparr>blood_pressure_systolic = '''', blood_pressure_diastolic = '''', heart_rate = '''',
      temperature = '''', spo2 = '''', respiratory_rate = ''''\<rparr>"

definition empty_anesthesia :: anesthesia_params where
  "empty_anesthesia =
     \<lparr>anesthesia_type = '''', intubated = '''', medications = '''', notes_field = ''''\<rparr>"

definition initial_state :: app_state where
  "initial_state =
     \<lparr>step = Upload, selectedFile = None, previewUrl = '''', ocrResult = JNull,
      isLoading = False, error = JStr '''', vitalSigns = empty_vital_signs,
      anesthesia = empty_anesthesia, analysisResult = JNull, weight = ''''\<rparr>"

text \<open>
  \<^verbatim>\<open>URL.createObjectURL\<close> is the browser's: it returns a fresh \<^verbatim>\<open>blob:\<close> URL, never the
  empty string.
\<close>

fun createObjectURL :: "js_file \<Rightarrow> string" where
  "createObjectURL (File n) = ''blob:'' @ n"

section \<open>The handlers\<close>

definition handleFileSelect :: "js_file option \<Rightarrow> app_state \<Rightarrow> app_state" where
  "handleFileSelect fo s =
     (case fo of
        None \<Rightarrow> s
      | Some f \<Rightarrow>
          s\<lparr>selectedFile := Some f, previewUrl := createObjectURL f, step := Review,
            error := JStr ''''\<rparr>)"

text \<open>The review stage's second button: \<^verbatim>\<open>onClick={() => setStep('upload')}\<close>.\<close>

definition reselect :: "app_state \<Rightarrow> app_state" where
  "reselect s = s\<lparr>step := Upload\<rparr>"

definition handleReset :: "app_state \<Rightarrow> app_state" where
  "handleReset s =
     s\<lparr>step := Upload, selectedFile := None, previewUrl := '''', ocrResult := JNull,
       weight := '''', vitalSigns := empty_vital_signs, anesthesia := empty_anesthesia,
       analysisResult := JNull, error := JStr ''''\<rparr>"

subsection \<open>The messages of the client\<close>

text \<open>
  The three texts the client writes itself, as their UTF-8 bytes: the default OCR failure
  text, and the prefixes for a network error and a failed analysis.
\<close>

definition msg_ocr_failed :: string where
  "msg_ocr_failed =
     [CHR 0x4F, CHR 0x43, CHR 0x52, CHR 0xE8, CHR 0xAF, CHR 0x86, CHR 0xE5, CHR 0x88,
      CHR 0xAB, CHR 0xE5, CHR 0xA4, CHR 0xB1, CHR 0xE8, CHR 0xB4, CHR 0xA5]"

definition msg_network_error :: string where
  "msg_network_error =
     [CHR 0xE7, CHR 0xBD, CHR 0x91, CHR 0xE7, CHR 0xBB, CHR 0x9C, CHR 0xE9, CHR 0x94,
      CHR 0x99, CHR 0xE8, CHR 0xAF, CHR 0xAF, CHR 0xEF, CHR 0xBC, CHR 0x9A]"

definition msg_analysis_failed :: string where
  "msg_analysis_failed =
     [CHR 0xE5, CHR 0x88, CHR 0x86, CHR 0xE6, CHR 0x9E, CHR 0x90, CHR 0xE5, CHR 0xA4,
      CHR 0xB1, CHR 0xE8, CHR 0xB4, CHR 0xA5, CHR 0xEF, CHR 0xBC, CHR 0x9A]"

subsection \<open>Form data\<close>

text \<open>
  A \<^verbatim>\<open>FormData\<close> is the list of its entries in the order of the \<^verbatim>\<open>append\<close> calls.
  \<open>FJson v\<close> stands for the text \<^verbatim>\<open>JSON.stringify(v)\<close>.
\<close>

datatype form_value = FFile js_file | FText string | FJson js

type_synonym form_data = "(string \<times> form_value) list"

text \<open>\<^verbatim>\<open>Object.entries\<close> of the two form objects, in the order their keys were created.\<close>

definition vitalSigns_entries :: "vital_signs \<Rightarrow> (string \<times> string) list" where
  "vitalSigns_entries vs =
     [(''blood_pressure_systolic'', blood_pressure_systolic vs),
      (''blood_pressure_diastolic'', blood_pressure_diastolic vs),
      (''heart_rate'', heart_rate vs),
      (''temperature'', temperature vs),
      (''spo2'', spo2 vs),
      (''respiratory_rate'', respiratory_rate vs)]"

definition anesthesia_entries :: "anesthesia_params \<Rightarrow> (string \<times> string) list" where
  "anesthesia_entries a =
     [(''anesthesia_type'', anesthesia_type a),
      (''intubated'', intubated a),
      (''medications'', medications a),
      (''notes'', notes_field a)]"

text \<open>
  The two \<^verbatim>\<open>forEach\<close> loops of \<^verbatim>\<open>handleAnalyze\<close>:
  \<^verbatim>\<open>if (value) validVitalSigns[key] = parseFloat(value) || value\<close> and
  \<^verbatim>\<open>if (value) validAnesthesia[key] = value\<close>.
\<close>

definition validVitalSigns :: "vital_signs \<Rightarrow> (string \<times> js) list" where
  "validVitalSigns vs =
     fold (\<lambda>(key, val) obj.
             if val \<noteq> [] then AList.update key (js_or (parseFloat val) (JStr val)) obj
             else obj)
          (vitalSigns_entries vs) []"

definition validAnesthesia :: "anesthesia_params \<Rightarrow> (string \<times> js) list" where
  "validAnesthesia a =
     fold (\<lambda>(key, val) obj. if val \<noteq> [] then AList.update key (JStr val) obj else obj)
          (anesthesia_entries a) []"

definition analyze_form :: "app_state \<Rightarrow> form_data" where
  "analyze_form s =
     [(''blood_gas_json'', FJson (ocrResult s))]
     @ (if weight s \<noteq> [] then [(''weight'', FText (weight s))] else [])
     @ (if validVitalSigns (vitalSigns s) \<noteq> []
        then [(''vital_signs_json'', FJson (JObj (validVitalSigns (vitalSigns s))))] else [])
     @ (if validAnesthesia (anesthesia s) \<noteq> []
        then [(''anesthesia_json'', FJson (JObj (validAnesthesia (anesthesia s))))] else [])"

definition ocr_form :: "app_state \<Rightarrow> js_file \<Rightarrow> form_data" where
  "ocr_form s f =
     [(''file'', FFile f)]
     @ (if weight s \<noteq> [] then [(''weight'', FText (weight s))] else [])"

subsection \<open>The two requests\<close>

text \<open>
  An \<^verbatim>\<open>async\<close> handler runs in two parts. The first part runs at the click, up to the
  \<^verbatim>\<open>await fetch\<close>: it returns the state it leaves and the form it sends, or \<open>None\<close>
  when the handler returns at its guard without sending anything. The second part runs
  when the reply is there, on the state of that moment: the setters it calls take their
  values from the reply alone. A reply is the parsed body, or the message of the error
  that \<^verbatim>\<open>fetch\<close> or \<^verbatim>\<open>response.json()\<close> threw.
\<close>

datatype reply = Parsed js | Threw string

definition handleOCR_begin :: "app_state \<Rightarrow> (app_state \<times> form_data) option" where
  "handleOCR_begin s =
     (case selectedFile s of
        None \<Rightarrow> None
      | Some f \<Rightarrow> Some (s\<lparr>isLoading := True, error := JStr ''''\<rparr>, ocr_form s f))"

definition ocr_caught :: "string \<Rightarrow> app_state \<Rightarrow> app_state" where
  "ocr_caught m s = s\<lparr>error := JStr (msg_network_error @ m), isLoading := False\<rparr>"

definition handleOCR_reply :: "reply \<Rightarrow> app_state \<Rightarrow> app_state" where
  "handleOCR_reply r s =
     (case r of
        Threw m \<Rightarrow> ocr_caught m s
      | Parsed data \<Rightarrow>
          (case get_prop data ''success'' of
             Inl m \<Rightarrow> ocr_caught m s
           | Inr ok \<Rightarrow>
               if truthy ok then
                 (case get_prop data ''ocr_result'' of
                    Inl m \<Rightarrow> ocr_caught m s
                  | Inr res \<Rightarrow> s\<lparr>ocrResult := res, step := Input, isLoading := False\<rparr>)
               else
                 (case get_prop data ''error'' of
                    Inl m \<Rightarrow> ocr_caught m s
                  | Inr e \<Rightarrow> s\<lparr>error := js_or e (JStr msg_ocr_failed), isLoading := False\<rparr>)))"

definition handleAnalyze_begin :: "app_state \<Rightarrow> (app_state \<times> form_data) option" where
  "handleAnalyze_begin s =
     (if truthy (ocrResult s)
      then Some (s\<lparr>isLoading := True, error := JStr ''''\<rparr>, analyze_form s)
      else None)"

definition handleAnalyze_reply :: "reply \<Rightarrow> app_state \<Rightarrow> app_state" where
  "handleAnalyze_reply r s =
     (case r of
        Threw m \<Rightarrow> s\<lparr>error := JStr (msg_analysis_failed @ m), isLoading := False\<rparr>
      | Parsed data \<Rightarrow> s\<lparr>analysisResult := data, step := Result, isLoading := False\<rparr>)"

section \<open>The page and its events\<close>

text \<open>Which of the four panels the page shows: the conditions of the JSX.\<close>

definition upload_visible :: "app_state \<Rightarrow> bool" where
  "upload_visible s = (step s = Upload)"

definition review_visible :: "app_state \<Rightarrow> bool" where
  "review_visible s = (step s = Review \<and> previewUrl s \<noteq> [])"

definition supplement_visible :: "app_state \<Rightarrow> bool" where
  "supplement_visible s = (step s = Input \<and> truthy (ocrResult s))"

definition result_visible :: "app_state \<Rightarrow> bool" where
  "result_visible s = (step s = Result \<and> truthy (analysisResult s))"

datatype vital_field = Systolic | Diastolic | HeartRate | Temperature | SpO2 | RespiratoryRate

datatype anesthesia_field = AnesthesiaType | Intubated | Medications

fun set_vital :: "vital_field \<Rightarrow> string \<Rightarrow> vital_signs \<Rightarrow> vital_signs" where
  "set_vital Systolic v vs = vs\<lparr>blood_pressure_systolic := v\<rparr>"
| "set_vital Diastolic v vs = vs\<lparr>blood_pressure_diastolic := v\<rparr>"
| "set_vital HeartRate v vs = vs\<lparr>heart_rate := v\<rparr>"
| "set_vital Temperature v vs = vs\<lparr>temperature := v\<rparr>"
| "set_vital SpO2 v vs = vs\<lparr>spo2 := v\<rparr>"
| "set_vital RespiratoryRate v vs = vs\<lparr>respiratory_rate := v\<rparr>"

fun set_anesthesia :: "anesthesia_field \<Rightarrow> string \<Rightarrow> anesthesia_params \<Rightarrow> anesthesia_params" where
  "set_anesthesia AnesthesiaType v a = a\<lparr>anesthesia_type := v\<rparr>"
| "set_anesthesia Intubated v a = a\<lparr>intubated := v\<rparr>"
| "set_anesthesia Medications v a = a\<lparr>medications := v\<rparr>"

text \<open>
  The client together with the requests that have been sent and not answered yet.
  An event is something the user does on a control the page shows, or the arrival of a
  reply. \<open>fire\<close> is \<open>None\<close> where the event cannot happen: the control is not on the page,
  the button is disabled, or no request of that kind is in flight.
\<close>

record world =
  app :: app_state
  ocr_in_flight :: nat
  analyze_in_flight :: nat

datatype event =
    FileSelect "js_file option"
  | WeightInput string
  | OcrClick
  | ReselectClick
  | OcrReply reply
  | VitalInput vital_field string
  | AnesthesiaInput anesthesia_field string
  | AnalyzeClick
  | ResetClick
  | AnalyzeReply reply

fun fire :: "world \<Rightarrow> event \<Rightarrow> world option" where
  "fire w (FileSelect fo) =
     (if upload_visible (app w) then Some (w\<lparr>app := handleFileSelect fo (app w)\<rparr>) else None)"
| "fire w (WeightInput v) =
     (if review_visible (app w) then Some (w\<lparr>app := (app w)\<lparr>weight := v\<rparr>\<rparr>) else None)"
| "fire w OcrClick =
     (if review_visible (app w) \<and> \<not> isLoading (app w) then
        (case handleOCR_begin (app w) of
           None \<Rightarrow> Some w
         | Some (s', fd) \<Rightarrow> Some (w\<lparr>app := s', ocr_in_flight := Suc (ocr_in_flight w)\<rparr>))
      else None)"
| "fire w ReselectClick =
     (if review_visible (app w) then Some (w\<lparr>app := reselect (app w)\<rparr>) else None)"
| "fire w (OcrReply r) =
     (if 0 < ocr_in_flight w
      then Some (w\<lparr>app := handleOCR_reply r (app w), ocr_in_flight := ocr_in_flight w - 1\<rparr>)
      else None)"
| "fire w (VitalInput k v) =
     (if supplement_visible (app w)
      then Some (w\<lparr>app := (app w)\<lparr>vitalSigns := set_vital k v (vitalSigns (app w))\<rparr>\<rparr>)
      else None)"
| "fire w (AnesthesiaInput k v) =
     (if supplement_visible (app w)
      then Some (w\<lparr>app := (app w)\<lparr>anesthesia := set_anesthesia k v (anesthesia (app w))\<rparr>\<rparr>)
      else None)"
| "fire w AnalyzeClick =
     (if supplement_visible (app w) \<and> \<not> isLoading (app w) then
        (case handleAnalyze_begin (app w) of
           None \<Rightarrow> Some w
         | Some (s', fd) \<Rightarrow>
             Some (w\<lparr>app := s', analyze_in_flight := Suc (analyze_in_flight w)\<rparr>))
      else None)"
| "fire w ResetClick =
     (if supplement_visible (app w) \<or> result_visible (app w)
      then Some (w\<lparr>app := handleReset (app w)\<rparr>) else None)"
| "fire w (AnalyzeReply r) =
     (if 0 < analyze_in_flight w
      then Some (w\<lparr>app := handleAnalyze_reply r (app w),
                   analyze_in_flight := analyze_in_flight w - 1\<rparr>)
      else None)"

fun run :: "world \<Rightarrow> event list \<Rightarrow> world option" where
  "run w [] = Some w"
| "run w (e # es) = (case fire w e of None \<Rightarrow> None | Some w' \<Rightarrow> run w' es)"

definition initial_world :: world where
  "initial_world = \<lparr>app = initial_state, ocr_in_flight = 0, analyze_in_flight = 0\<rparr>"

section \<open>The recognised values on the supplement panel\<close>

text \<open>
  A child of a JSX element is an element or a plain value. \<^verbatim>\<open>v && <e/>\<close> is the element
  when \<open>v\<close> is truthy and the value \<open>v\<close> itself otherwise; React prints a plain number
  or string as text and prints nothing for a boolean, \<^verbatim>\<open>null\<close> or \<^verbatim>\<open>undefined\<close>.
  \<open>Labelled l v\<close> is the tile or the text that shows the value \<open>v\<close> under the label \<open>l\<close>.
\<close>

datatype labelled = Labelled string js

datatype child = Element labelled | Plain js

definition js_and :: "js \<Rightarrow> child \<Rightarrow> child" where
  "js_and v c = (if truthy v then c else Plain v)"

fun prints_nothing :: "child \<Rightarrow> bool" where
  "prints_nothing (Element e) = False"
| "prints_nothing (Plain JUndefined) = True"
| "prints_nothing (Plain JNull) = True"
| "prints_nothing (Plain (JBool b)) = True"
| "prints_nothing (Plain (JStr s)) = (s = [])"
| "prints_nothing (Plain v) = False"

text \<open>
  The panel is on the page only when the OCR result is truthy, so reading a property of
  it does not throw there.
\<close>

definition field_of :: "js \<Rightarrow> string \<Rightarrow> js" where
  "field_of obj k = (case get_prop obj k of Inl m \<Rightarrow> JUndefined | Inr v \<Rightarrow> v)"

text \<open>
  Nine fields are shown as \<^verbatim>\<open>{ocrResult.k && ...}\<close>: pH, PO2, PCO2, Na+, K+, Ca++,
  HCO3-, LAC and THbc.
\<close>

definition show_field :: "js \<Rightarrow> string \<Rightarrow> string \<Rightarrow> child" where
  "show_field ocr k label = js_and (field_of ocr k) (Element (Labelled label (field_of ocr k)))"

text \<open>
  The base excess is shown as
  \<^verbatim>\<open>{ocrResult.be_ecf !== null && ocrResult.be_ecf !== undefined && (...)}\<close>.
\<close>

definition show_be :: "js \<Rightarrow> child" where
  "show_be ocr =
     (if field_of ocr ''be_ecf'' \<noteq> JNull then
        (if field_of ocr ''be_ecf'' \<noteq> JUndefined
         then Element (Labelled ''BE'' (field_of ocr ''be_ecf''))
         else Plain (JBool False))
      else Plain (JBool False))"

text \<open>The values of the reading on the panel, in the order of the JSX.\<close>

definition reading_children :: "js \<Rightarrow> child list" where
  "reading_children ocr =
     [show_field ocr ''ph'' ''pH'', show_field ocr ''po2'' ''PO2'',
      show_field ocr ''pco2'' ''PCO2'', show_be ocr,
      show_field ocr ''na'' ''Na+'', show_field ocr ''k'' ''K+'', show_field ocr ''ca'' ''Ca++'',
      show_field ocr ''hco3_act'' ''HCO3-'', show_field ocr ''lac'' ''LAC'',
      show_field ocr ''thbc'' ''THbc'']"


section \<open>Properties as the specification words them\<close>

text \<open>
  The definitions of this section follow the words of the specification, not the code;
  the theorems compare the code with them.
\<close>

text \<open>Trimming, as the specification's "non-empty after trimming" reads.\<close>

definition spec_trim :: "string \<Rightarrow> string" where
  "spec_trim s = rev (dropWhile is_ws (rev (dropWhile is_ws s)))"

text \<open>An OCR reply reports success when its body parsed and its \<^verbatim>\<open>success\<close> is truthy.\<close>

definition reports_success :: "reply \<Rightarrow> bool" where
  "reports_success r =
     (case r of
        Threw m \<Rightarrow> False
      | Parsed data \<Rightarrow>
          (case get_prop data ''success'' of Inl m \<Rightarrow> False | Inr ok \<Rightarrow> truthy ok))"

text \<open>The reading a successful OCR reply carries: its \<^verbatim>\<open>ocr_result\<close>.\<close>

definition reading_of :: "reply \<Rightarrow> js" where
  "reading_of r = (case r of Threw m \<Rightarrow> JUndefined | Parsed data \<Rightarrow> field_of data ''ocr_result'')"



text \<open>
  The transitions of the specification's workflow: upload to review on file selection,
  review to supplement on successful OCR, supplement to result on an analysis that
  returned, and anything to upload on reset.
\<close>

fun specified_transition :: "stage \<Rightarrow> event \<Rightarrow> stage \<Rightarrow> bool" where
  "specified_transition a (FileSelect (Some f)) b = (a = Upload \<and> b = Review)"
| "specified_transition a (OcrReply r) b = (a = Review \<and> b = Input \<and> reports_success r)"
| "specified_transition a (AnalyzeReply (Parsed d)) b = (a = Input \<and> b = Result)"
| "specified_transition a ResetClick b = (b = Upload)"
| "specified_transition a e b = False"

text \<open>
  Every successful OCR reply among the events carries a reading that is not
  \<^verbatim>\<open>null\<close>, \<^verbatim>\<open>undefined\<close> or another falsy value.
\<close>

fun carries_reading :: "event \<Rightarrow> bool" where
  "carries_reading (OcrReply r) = (reports_success r \<longrightarrow> truthy (reading_of r))"
| "carries_reading e = True"

text \<open>
  How far a sequence of events has come through the stages, in order: 1 after a file has
  been selected, 2 after an OCR click that followed it, 3 after a successful OCR reply
  that followed that.
\<close>

fun advance :: "event \<Rightarrow> nat \<Rightarrow> nat" where
  "advance (FileSelect (Some f)) p = (if p = 0 then 1 else p)"
| "advance OcrClick p = (if p = 1 then 2 else p)"
| "advance (OcrReply r) p = (if p = 2 \<and> reports_success r then 3 else p)"
| "advance e p = p"

definition progress :: "event list \<Rightarrow> nat" where
  "progress es = fold advance es 0"

section \<open>The acid correction\<close>

text \<open>
  Modelled from the spec: the Correction Engine's acid correction (section 4.3). It is
  server code, and no server code is among the sources; the client only prints the
  fields of the reply. The correction applies when pH is below 7.35 and the base excess
  below -2; it then needs the weight, and reports insufficient data without it. The
  required NaHCO3 in mmol is 0.3 times the weight in kg times the magnitude of the base
  excess, and the volume of the 5% solution in mL is that amount divided by 0.595
  mmol/mL. Numbers are rationals here: the rounding of floating point is not modelled.
\<close>

definition distribution_volume :: rat where
  "distribution_volume = 3 / 10"

definition nahco3_mmol_per_ml :: rat where
  "nahco3_mmol_per_ml = 595 / 1000"

record acid_dose =
  basis_weight :: rat
  basis_base_excess :: rat
  calculated_na_hco3_mmol :: rat
  nahco3_5_percent_ml :: rat

datatype acid_correction = NotApplicable | InsufficientData | Dose acid_dose

definition acid_correction :: "rat option \<Rightarrow> rat option \<Rightarrow> rat option \<Rightarrow> acid_correction" where
  "acid_correction w ph be =
     (case ph of
        None \<Rightarrow> NotApplicable
      | Some p \<Rightarrow>
          (case be of
             None \<Rightarrow> NotApplicable
           | Some b \<Rightarrow>
               if p < 735 / 100 \<and> b < - 2 then
                 (case w of
                    None \<Rightarrow> InsufficientData
                  | Some kg \<Rightarrow>
                      Dose \<lparr>basis_weight = kg, basis_base_excess = b,
                            calculated_na_hco3_mmol = distribution_volume * kg * \<bar>b\<bar>,
                            nahco3_5_percent_ml =
                              distribution_volume * kg * \<bar>b\<bar> / nahco3_mmol_per_ml\<rparr>)
               else NotApplicable))"

section \<open>Invariants of the event model\<close>

text \<open>
  At most one request is in flight, and the loading flag is set exactly while one is.
\<close>

definition single_flight :: "world \<Rightarrow> bool" where
  "single_flight w =
     (ocr_in_flight w + analyze_in_flight w \<le> 1
      \<and> (isLoading (app w) = (ocr_in_flight w + analyze_in_flight w = 1)))"

text \<open>
  Where the client can be while a reply is awaited: an OCR request was sent from the
  review stage, and only the back button leaves it; an analysis request was sent from
  the supplement stage, and a reset followed by a file selection leads on from there.
\<close>

definition awaiting_stage :: "world \<Rightarrow> bool" where
  "awaiting_stage w =
     ((0 < ocr_in_flight w \<longrightarrow> step (app w) = Review \<or> step (app w) = Upload)
      \<and> (0 < analyze_in_flight w \<longrightarrow> step (app w) \<noteq> Result))"

text \<open>The stages and the progress of the events so far.\<close>

definition stage_progress :: "event list \<Rightarrow> world \<Rightarrow> bool" where
  "stage_progress es w =
     (progress es \<le> 3
      \<and> (step (app w) = Review \<longrightarrow> 1 \<le> progress es)
      \<and> (0 < ocr_in_flight w \<longrightarrow> 2 \<le> progress es)
      \<and> (step (app w) = Input \<longrightarrow> progress es = 3))"

text \<open>With replies that carry a reading, the supplement stage has one.\<close>

definition input_has_reading :: "world \<Rightarrow> bool" where
  "input_has_reading w = (step (app w) = Input \<longrightarrow> truthy (ocrResult (app w)))"

text \<open>The world a sequence of events leads to from the start, when each of them can happen.\<close>

definition after :: "event list \<Rightarrow> world" where
  "after es = (case run initial_world es of None \<Rightarrow> initial_world | Some w \<Rightarrow> w)"

section \<open>Example inputs\<close>

text \<open>Concrete states and replies, on which the theorems are evaluated.\<close>

definition example_reading :: js where
  "example_reading = JObj [(''ph'', JNum (72 / 10)), (''be_ecf'', JNum (- 10))]"

definition example_blank_form :: app_state where
  "example_blank_form = initial_state\<lparr>step := Input, ocrResult := example_reading, weight := ''70''\<rparr>"

definition example_filled_form :: app_state where
  "example_filled_form =
     initial_state\<lparr>step := Input, ocrResult := example_reading,
       vitalSigns := empty_vital_signs\<lparr>heart_rate := ''72'', temperature := ''n/a''\<rparr>,
       anesthesia := empty_anesthesia\<lparr>medications := ''propofol''\<rparr>\<rparr>"

definition example_file :: js_file where
  "example_file = File ''report.png''"

definition example_ok_reply :: reply where
  "example_ok_reply =
     Parsed (JObj [(''success'', JBool True), (''ocr_result'', example_reading)])"


definition example_bare_success :: reply where
  "example_bare_success = Parsed (JObj [(''success'', JBool True)])"

definition example_analysis :: js where
  "example_analysis = JObj [(''assessment'', JObj [(''risk_level'', JStr ''low'')])]"

definition ocr_sent :: "event list" where
  "ocr_sent = [FileSelect (Some example_file), OcrClick]"

definition ocr_sent_then_back :: "event list" where
  "ocr_sent_then_back = [FileSelect (Some example_file), OcrClick, ReselectClick]"

definition analysis_sent :: "event list" where
  "analysis_sent =
     [FileSelect (Some example_file), OcrClick, OcrReply example_ok_reply, AnalyzeClick]"

definition example_zero_reading :: js where
  "example_zero_reading =
     JObj [(''ph'', JNum (74 / 10)), (''po2'', JNum 0), (''lac'', JNum 0),
           (''be_ecf'', JNum 0)]"


section \<open>Theorems\<close>

subsection \<open>The back button of the review stage\<close>

text \<open>
  C10. The review stage's back button changes the step to upload and nothing else: the
  selected file, the preview URL, the weight, the vital signs, the anesthesia
  parameters and the OCR result are as before. The full reset clears each of them.
\<close>

theorem reselect_changes_only_step:
  "step (reselect s) = Upload
   \<and> selectedFile (reselect s) = selectedFile s
   \<and> previewUrl (reselect s) = previewUrl s
   \<and> weight (reselect s) = weight s
   \<and> vitalSigns (reselect s) = vitalSigns s
   \<and> anesthesia (reselect s) = anesthesia s
   \<and> ocrResult (reselect s) = ocrResult s
   \<and> reselect s = s\<lparr>step := Upload\<rparr>
   \<and> step (handleReset s) = Upload
   \<and> selectedFile (handleReset s) = None
   \<and> previewUrl (handleReset s) = ''''
   \<and> weight (handleReset s) = ''''
   \<and> vitalSigns (handleReset s) = empty_vital_signs
   \<and> anesthesia (handleReset s) = empty_anesthesia
   \<and> ocrResult (handleReset s) = JNull"
  by (simp add: reselect_def handleReset_def)

subsection \<open>The assembled analysis request\<close>

lemma map_of_fold_update:
  "distinct (map fst es) \<Longrightarrow>
   map_of (fold (\<lambda>(key, val) obj. if val \<noteq> [] then AList.update key (f val) obj else obj) es acc) k
   = (case map_of es k of
        None \<Rightarrow> map_of acc k
      | Some v \<Rightarrow> if v \<noteq> [] then Some (f v) else map_of acc k)"
proof (induction es arbitrary: acc)
  case Nil
  then show ?case by simp
next
  case (Cons e es)
  obtain key val where e: "e = (key, val)" by (cases e)
  from Cons.prems have d: "distinct (map fst es)" and nk: "key \<notin> fst ` set es"
    by (simp_all add: e)
  from nk have none: "map_of es key = None"
    by (simp add: map_of_eq_None_iff)
  show ?case
    using Cons.IH [OF d] none
    by (auto simp: e update_conv' split: option.splits)
qed

lemma distinct_vital_keys: "distinct (map fst (vitalSigns_entries vs))"
  by (simp add: vitalSigns_entries_def)

lemma distinct_anesthesia_keys: "distinct (map fst (anesthesia_entries a))"
  by (simp add: anesthesia_entries_def)

lemma map_of_validVitalSigns:
  "map_of (validVitalSigns vs) k
   = (case map_of (vitalSigns_entries vs) k of
        None \<Rightarrow> None
      | Some v \<Rightarrow> if v \<noteq> [] then Some (js_or (parseFloat v) (JStr v)) else None)"
  unfolding validVitalSigns_def
  by (simp add: map_of_fold_update [OF distinct_vital_keys] split: option.splits)

lemma map_of_validAnesthesia:
  "map_of (validAnesthesia a) k
   = (case map_of (anesthesia_entries a) k of
        None \<Rightarrow> None
      | Some v \<Rightarrow> if v \<noteq> [] then Some (JStr v) else None)"
  unfolding validAnesthesia_def
  by (simp add: map_of_fold_update [OF distinct_anesthesia_keys] split: option.splits)

lemma alist_empty_iff: "(al = []) = (\<forall>k. map_of al k = None)"
  by (cases al) auto

lemma validVitalSigns_empty_iff:
  "(validVitalSigns vs = []) = (\<forall>(k, v) \<in> set (vitalSigns_entries vs). v = [])"
proof -
  have "(validVitalSigns vs = []) = (\<forall>k. map_of (validVitalSigns vs) k = None)"
    by (rule alist_empty_iff)
  also have "\<dots> = (\<forall>(k, v) \<in> set (vitalSigns_entries vs). v = [])"
  proof
    assume h: "\<forall>k. map_of (validVitalSigns vs) k = None"
    show "\<forall>(k, v) \<in> set (vitalSigns_entries vs). v = []"
    proof (clarify)
      fix k v assume kv: "(k, v) \<in> set (vitalSigns_entries vs)"
      then have "map_of (vitalSigns_entries vs) k = Some v"
        using distinct_vital_keys by simp
      with h [rule_format, of k] show "v = []"
        by (simp add: map_of_validVitalSigns split: if_splits)
    qed
  next
    assume h: "\<forall>(k, v) \<in> set (vitalSigns_entries vs). v = []"
    show "\<forall>k. map_of (validVitalSigns vs) k = None"
    proof
      fix k
      show "map_of (validVitalSigns vs) k = None"
        using h by (auto simp: map_of_validVitalSigns split: option.splits dest: map_of_SomeD)
    qed
  qed
  finally show ?thesis .
qed

lemma validAnesthesia_empty_iff:
  "(validAnesthesia a = []) = (\<forall>(k, v) \<in> set (anesthesia_entries a). v = [])"
proof -
  have "(validAnesthesia a = []) = (\<forall>k. map_of (validAnesthesia a) k = None)"
    by (rule alist_empty_iff)
  also have "\<dots> = (\<forall>(k, v) \<in> set (anesthesia_entries a). v = [])"
  proof
    assume h: "\<forall>k. map_of (validAnesthesia a) k = None"
    show "\<forall>(k, v) \<in> set (anesthesia_entries a). v = []"
    proof (clarify)
      fix k v assume kv: "(k, v) \<in> set (anesthesia_entries a)"
      then have "map_of (anesthesia_entries a) k = Some v"
        using distinct_anesthesia_keys by simp
      with h [rule_format, of k] show "v = []"
        by (simp add: map_of_validAnesthesia split: if_splits)
    qed
  next
    assume h: "\<forall>(k, v) \<in> set (anesthesia_entries a). v = []"
    show "\<forall>k. map_of (validAnesthesia a) k = None"
    proof
      fix k
      show "map_of (validAnesthesia a) k = None"
        using h by (auto simp: map_of_validAnesthesia split: option.splits dest: map_of_SomeD)
    qed
  qed
  finally show ?thesis .
qed

lemma empty_vitals_entries: "\<forall>(k, v) \<in> set (vitalSigns_entries empty_vital_signs). v = []"
  by (simp add: vitalSigns_entries_def empty_vital_signs_def)

lemma empty_anesthesia_entries: "\<forall>(k, v) \<in> set (anesthesia_entries empty_anesthesia). v = []"
  by (simp add: anesthesia_entries_def empty_anesthesia_def)

text \<open>
  C2. When every vital-sign field and every anesthesia field is the empty string, the
  form that \<^verbatim>\<open>handleAnalyze\<close> sends has no \<^verbatim>\<open>vital_signs_json\<close> and no
  \<^verbatim>\<open>anesthesia_json\<close> entry: it is the blood-gas entry, followed by the weight when
  one was entered. No empty object is attached.
\<close>

theorem all_empty_form_attaches_no_sub_object:
  assumes "vitalSigns s = empty_vital_signs"
    and "anesthesia s = empty_anesthesia"
    and "handleAnalyze_begin s = Some (s', fd)"
  shows "''vital_signs_json'' \<notin> fst ` set fd \<and> ''anesthesia_json'' \<notin> fst ` set fd
         \<and> fd = (''blood_gas_json'', FJson (ocrResult s))
                 # (if weight s \<noteq> [] then [(''weight'', FText (weight s))] else [])"
proof -
  have v: "validVitalSigns (vitalSigns s) = []"
    using assms(1) empty_vitals_entries by (simp add: validVitalSigns_empty_iff)
  have a: "validAnesthesia (anesthesia s) = []"
    using assms(2) empty_anesthesia_entries by (simp add: validAnesthesia_empty_iff)
  from assms(3) have "fd = analyze_form s"
    by (auto simp: handleAnalyze_begin_def split: if_splits)
  then show ?thesis
    by (auto simp: analyze_form_def v a)
qed

theorem all_empty_form_attaches_no_sub_object_witness:
  "vitalSigns example_blank_form = empty_vital_signs
   \<and> anesthesia example_blank_form = empty_anesthesia
   \<and> handleAnalyze_begin example_blank_form
       = Some (example_blank_form\<lparr>isLoading := True, error := JStr ''''\<rparr>,
               [(''blood_gas_json'', FJson example_reading), (''weight'', FText ''70'')])
   \<and> ''vital_signs_json'' \<notin> fst ` set [(''blood_gas_json'', FJson example_reading), (''weight'', FText ''70'')]
   \<and> ''anesthesia_json'' \<notin> fst ` set [(''blood_gas_json'', FJson example_reading), (''weight'', FText ''70'')]"
proof -
  have v: "vitalSigns example_blank_form = empty_vital_signs"
    by (simp add: example_blank_form_def initial_state_def)
  have a: "anesthesia example_blank_form = empty_anesthesia"
    by (simp add: example_blank_form_def initial_state_def)
  have w: "weight example_blank_form = ''70''" and o: "ocrResult example_blank_form = example_reading"
    by (simp_all add: example_blank_form_def)
  have b: "handleAnalyze_begin example_blank_form
           = Some (example_blank_form\<lparr>isLoading := True, error := JStr ''''\<rparr>,
                   analyze_form example_blank_form)"
    by (simp add: handleAnalyze_begin_def o example_reading_def)
  from all_empty_form_attaches_no_sub_object [OF v a b]
  show ?thesis using v a b by (simp add: w o)
qed

text \<open>
  C3, as amended. A field is put into its sub-object exactly when its raw string is not
  empty; nothing is trimmed. An included vital sign is sent as the number
  \<^verbatim>\<open>parseFloat\<close> reads when that number is truthy (not zero), and as the original
  string when \<^verbatim>\<open>parseFloat\<close> reads no number. An included anesthesia parameter is
  sent as the string it is. A sub-object is attached exactly when one of its fields is
  not empty.
\<close>

theorem assembled_optional_fields:
  "(\<forall>(k, v) \<in> set (vitalSigns_entries (vitalSigns s)).
      (map_of (validVitalSigns (vitalSigns s)) k \<noteq> None) = (v \<noteq> [])
      \<and> (v \<noteq> [] \<longrightarrow> truthy (parseFloat v) \<longrightarrow>
           map_of (validVitalSigns (vitalSigns s)) k = Some (parseFloat v))
      \<and> (v \<noteq> [] \<longrightarrow> parseFloat v = JNaN \<longrightarrow>
           map_of (validVitalSigns (vitalSigns s)) k = Some (JStr v)))
   \<and> (\<forall>(k, v) \<in> set (anesthesia_entries (anesthesia s)).
        map_of (validAnesthesia (anesthesia s)) k = (if v = [] then None else Some (JStr v)))
   \<and> map_of (analyze_form s) ''vital_signs_json''
       = (if \<forall>(k, v) \<in> set (vitalSigns_entries (vitalSigns s)). v = [] then None
          else Some (FJson (JObj (validVitalSigns (vitalSigns s)))))
   \<and> map_of (analyze_form s) ''anesthesia_json''
       = (if \<forall>(k, v) \<in> set (anesthesia_entries (anesthesia s)). v = [] then None
          else Some (FJson (JObj (validAnesthesia (anesthesia s)))))"
proof (intro conjI)
  show "\<forall>(k, v) \<in> set (vitalSigns_entries (vitalSigns s)).
      (map_of (validVitalSigns (vitalSigns s)) k \<noteq> None) = (v \<noteq> [])
      \<and> (v \<noteq> [] \<longrightarrow> truthy (parseFloat v) \<longrightarrow>
           map_of (validVitalSigns (vitalSigns s)) k = Some (parseFloat v))
      \<and> (v \<noteq> [] \<longrightarrow> parseFloat v = JNaN \<longrightarrow>
           map_of (validVitalSigns (vitalSigns s)) k = Some (JStr v))"
  proof (clarify)
    fix k v assume "(k, v) \<in> set (vitalSigns_entries (vitalSigns s))"
    then have m: "map_of (vitalSigns_entries (vitalSigns s)) k = Some v"
      using distinct_vital_keys by simp
    show "(map_of (validVitalSigns (vitalSigns s)) k \<noteq> None) = (v \<noteq> [])
      \<and> (v \<noteq> [] \<longrightarrow> truthy (parseFloat v) \<longrightarrow>
           map_of (validVitalSigns (vitalSigns s)) k = Some (parseFloat v))
      \<and> (v \<noteq> [] \<longrightarrow> parseFloat v = JNaN \<longrightarrow>
           map_of (validVitalSigns (vitalSigns s)) k = Some (JStr v))"
      by (simp add: map_of_validVitalSigns m js_or_def)
  qed
next
  show "\<forall>(k, v) \<in> set (anesthesia_entries (anesthesia s)).
        map_of (validAnesthesia (anesthesia s)) k = (if v = [] then None else Some (JStr v))"
  proof (clarify)
    fix k v assume "(k, v) \<in> set (anesthesia_entries (anesthesia s))"
    then have m: "map_of (anesthesia_entries (anesthesia s)) k = Some v"
      using distinct_anesthesia_keys by simp
    show "map_of (validAnesthesia (anesthesia s)) k = (if v = [] then None else Some (JStr v))"
      by (simp add: map_of_validAnesthesia m)
  qed
next
  show "map_of (analyze_form s) ''vital_signs_json''
       = (if \<forall>(k, v) \<in> set (vitalSigns_entries (vitalSigns s)). v = [] then None
          else Some (FJson (JObj (validVitalSigns (vitalSigns s)))))"
    unfolding validVitalSigns_empty_iff [symmetric]
    by (simp add: analyze_form_def)
next
  show "map_of (analyze_form s) ''anesthesia_json''
       = (if \<forall>(k, v) \<in> set (anesthesia_entries (anesthesia s)). v = [] then None
          else Some (FJson (JObj (validAnesthesia (anesthesia s)))))"
    unfolding validAnesthesia_empty_iff [symmetric]
    by (simp add: analyze_form_def)
qed

lemma parseFloat_72: "parseFloat ''72'' = JNum 72"
  by (simp add: parseFloat_def is_ws_def parse_unsigned_def is_digit_def decimal_value_def
      digits_val_def pow10_def to_double_def)

lemma parseFloat_na: "parseFloat ''n/a'' = JNaN"
  by (simp add: parseFloat_def is_ws_def parse_unsigned_def is_digit_def)

theorem assembled_optional_fields_witness:
  "map_of (validVitalSigns (vitalSigns example_filled_form)) ''heart_rate'' = Some (JNum 72)
   \<and> map_of (validVitalSigns (vitalSigns example_filled_form)) ''temperature'' = Some (JStr ''n/a'')
   \<and> map_of (validVitalSigns (vitalSigns example_filled_form)) ''spo2'' = None
   \<and> map_of (validAnesthesia (anesthesia example_filled_form)) ''medications''
       = Some (JStr ''propofol'')
   \<and> map_of (validAnesthesia (anesthesia example_filled_form)) ''intubated'' = None"
proof -
  have vs: "vitalSigns_entries (vitalSigns example_filled_form)
            = [(''blood_pressure_systolic'', ''''), (''blood_pressure_diastolic'', ''''),
               (''heart_rate'', ''72''), (''temperature'', ''n/a''), (''spo2'', ''''),
               (''respiratory_rate'', '''')]"
    by (simp add: example_filled_form_def vitalSigns_entries_def empty_vital_signs_def)
  have an: "anesthesia_entries (anesthesia example_filled_form)
            = [(''anesthesia_type'', ''''), (''intubated'', ''''), (''medications'', ''propofol''),
               (''notes'', '''')]"
    by (simp add: example_filled_form_def anesthesia_entries_def empty_anesthesia_def)
  from assembled_optional_fields [of example_filled_form]
  show ?thesis
    by (simp add: vs an parseFloat_72 parseFloat_na)
qed

text \<open>
  C3 as stated fails: a medication text of one blank is empty after trimming, and it is
  included.
\<close>

theorem blank_medication_is_included:
  "spec_trim '' '' = []
   \<and> map_of (validAnesthesia (empty_anesthesia\<lparr>medications := '' ''\<rparr>)) ''medications''
       = Some (JStr '' '')
   \<and> map_of (analyze_form (initial_state\<lparr>ocrResult := example_reading,
         anesthesia := empty_anesthesia\<lparr>medications := '' ''\<rparr>\<rparr>)) ''anesthesia_json''
       = Some (FJson (JObj [(''medications'', JStr '' '')]))"
  by (simp add: spec_trim_def is_ws_def validAnesthesia_def anesthesia_entries_def
      empty_anesthesia_def analyze_form_def initial_state_def validVitalSigns_def
      vitalSigns_entries_def empty_vital_signs_def)

text \<open>
  The number zero is falsy, so \<^verbatim>\<open>parseFloat(value) || value\<close> sends a vital sign
  entered as \<^verbatim>\<open>0\<close> as the string.
\<close>

lemma parseFloat_0: "parseFloat ''0'' = JNum 0"
  by (simp add: parseFloat_def is_ws_def parse_unsigned_def is_digit_def decimal_value_def
      digits_val_def pow10_def to_double_def)

lemma zero_vital_sign_is_sent_as_string:
  "parseFloat ''0'' = JNum 0
   \<and> validVitalSigns (empty_vital_signs\<lparr>heart_rate := ''0''\<rparr>) = [(''heart_rate'', JStr ''0'')]"
  by (simp add: parseFloat_0 validVitalSigns_def vitalSigns_entries_def empty_vital_signs_def
      js_or_def)

subsection \<open>The reply handlers\<close>

lemma msg_network_error_nonempty: "msg_network_error \<noteq> []"
  by (simp add: msg_network_error_def)

lemma reports_success_Parsed:
  "reports_success (Parsed data) \<Longrightarrow> get_prop data k = Inr (field_of data k)"
  by (cases data) (simp_all add: reports_success_def field_of_def)

lemma handleOCR_reply_success:
  "reports_success r \<Longrightarrow>
   handleOCR_reply r s = s\<lparr>ocrResult := reading_of r, step := Input, isLoading := False\<rparr>"
proof (cases r)
  case (Parsed data)
  assume ok: "reports_success r"
  with Parsed have g: "\<And>k. get_prop data k = Inr (field_of data k)"
    by (simp add: reports_success_Parsed)
  from ok Parsed have t: "truthy (field_of data ''success'')"
    by (simp add: reports_success_def g)
  show ?thesis
    by (simp add: Parsed handleOCR_reply_def g t reading_of_def)
next
  case (Threw m)
  assume "reports_success r"
  with Threw show ?thesis by (simp add: reports_success_def)
qed

lemma handleOCR_reply_failure:
  "\<not> reports_success r \<Longrightarrow>
   handleOCR_reply r s = s\<lparr>error := error (handleOCR_reply r s), isLoading := False\<rparr>
   \<and> truthy (error (handleOCR_reply r s))"
proof (cases r)
  case (Threw m)
  then show ?thesis
    by (simp add: handleOCR_reply_def ocr_caught_def msg_network_error_nonempty)
next
  case (Parsed data)
  assume no: "\<not> reports_success r"
  show ?thesis
  proof (cases "get_prop data ''success''")
    case (Inl m)
    then show ?thesis
      by (simp add: Parsed handleOCR_reply_def ocr_caught_def msg_network_error_nonempty)
  next
    case (Inr ok)
    with no Parsed have f: "\<not> truthy ok"
      by (simp add: reports_success_def)
    from Inr have "get_prop data ''error'' = Inr (field_of data ''error'')"
      by (cases data) (simp_all add: field_of_def)
    then show ?thesis
      by (simp add: Parsed handleOCR_reply_def Inr f js_or_def msg_ocr_failed_def)
  qed
qed

lemma handleOCR_reply_step:
  "step (handleOCR_reply r s) = (if reports_success r then Input else step s)"
proof (cases "reports_success r")
  case True
  then show ?thesis by (simp add: handleOCR_reply_success)
next
  case False
  from handleOCR_reply_failure [OF False, of s]
  have "handleOCR_reply r s = s\<lparr>error := error (handleOCR_reply r s), isLoading := False\<rparr>"
    by simp
  then have "step (handleOCR_reply r s)
             = step (s\<lparr>error := error (handleOCR_reply r s), isLoading := False\<rparr>)"
    by simp
  with False show ?thesis by simp
qed

lemma handleOCR_reply_ocrResult:
  "ocrResult (handleOCR_reply r s) = (if reports_success r then reading_of r else ocrResult s)"
proof (cases "reports_success r")
  case True
  then show ?thesis by (simp add: handleOCR_reply_success)
next
  case False
  from handleOCR_reply_failure [OF False, of s]
  have "handleOCR_reply r s = s\<lparr>error := error (handleOCR_reply r s), isLoading := False\<rparr>"
    by simp
  then have "ocrResult (handleOCR_reply r s)
             = ocrResult (s\<lparr>error := error (handleOCR_reply r s), isLoading := False\<rparr>)"
    by simp
  with False show ?thesis by simp
qed

lemma handleOCR_reply_isLoading: "\<not> isLoading (handleOCR_reply r s)"
proof (cases "reports_success r")
  case True
  then show ?thesis by (simp add: handleOCR_reply_success)
next
  case False
  from handleOCR_reply_failure [OF False, of s]
  have "handleOCR_reply r s = s\<lparr>error := error (handleOCR_reply r s), isLoading := False\<rparr>"
    by simp
  then have "isLoading (handleOCR_reply r s)
             = isLoading (s\<lparr>error := error (handleOCR_reply r s), isLoading := False\<rparr>)"
    by simp
  then show ?thesis by simp
qed

lemma handleAnalyze_reply_isLoading: "\<not> isLoading (handleAnalyze_reply r s)"
  by (cases r) (simp_all add: handleAnalyze_reply_def)

lemma handleOCR_begin_Some:
  "handleOCR_begin s = Some (s', fd) \<Longrightarrow> s' = s\<lparr>isLoading := True, error := JStr ''''\<rparr>"
  by (auto simp: handleOCR_begin_def split: option.splits)

lemma handleAnalyze_begin_Some:
  "handleAnalyze_begin s = Some (s', fd) \<Longrightarrow> s' = s\<lparr>isLoading := True, error := JStr ''''\<rparr>"
  by (auto simp: handleAnalyze_begin_def split: if_splits)

lemma handleFileSelect_isLoading: "isLoading (handleFileSelect fo s) = isLoading s"
  by (cases fo) (simp_all add: handleFileSelect_def)

subsection \<open>A failed OCR\<close>







subsection \<open>Single flight\<close>

lemma single_flight_fire:
  assumes "single_flight w" and "fire w e = Some w'"
  shows "single_flight w'"
proof (cases e)
  case (FileSelect fo)
  with assms show ?thesis
    by (auto simp: single_flight_def handleFileSelect_isLoading split: if_splits)
next
  case (WeightInput v)
  with assms show ?thesis by (auto simp: single_flight_def split: if_splits)
next
  case OcrClick
  with assms show ?thesis
    by (auto simp: single_flight_def split: if_splits option.splits dest!: handleOCR_begin_Some)
next
  case ReselectClick
  with assms show ?thesis by (auto simp: single_flight_def reselect_def split: if_splits)
next
  case (OcrReply r)
  with assms show ?thesis
    by (auto simp: single_flight_def handleOCR_reply_isLoading split: if_splits)
next
  case (VitalInput k v)
  with assms show ?thesis by (auto simp: single_flight_def split: if_splits)
next
  case (AnesthesiaInput k v)
  with assms show ?thesis by (auto simp: single_flight_def split: if_splits)
next
  case AnalyzeClick
  with assms show ?thesis
    by (auto simp: single_flight_def split: if_splits option.splits dest!: handleAnalyze_begin_Some)
next
  case ResetClick
  with assms show ?thesis by (auto simp: single_flight_def handleReset_def split: if_splits)
next
  case (AnalyzeReply r)
  with assms show ?thesis
    by (auto simp: single_flight_def handleAnalyze_reply_isLoading split: if_splits)
qed

lemma single_flight_run:
  "single_flight w \<Longrightarrow> run w es = Some w' \<Longrightarrow> single_flight w'"
proof (induction es arbitrary: w)
  case Nil
  then show ?case by simp
next
  case (Cons e es)
  from Cons.prems(2) obtain w1 where f: "fire w e = Some w1" and r: "run w1 es = Some w'"
    by (auto split: option.splits)
  from Cons.prems(1) f have "single_flight w1" by (rule single_flight_fire)
  then show ?case using r by (rule Cons.IH)
qed

lemma single_flight_initial: "single_flight initial_world"
  by (simp add: single_flight_def initial_world_def initial_state_def)

text \<open>
  C8. In every world the events can lead to, while the loading flag is set the OCR
  button and the analysis button are disabled, so neither click can happen; at most one
  request is in flight; and whenever a request is in flight the loading flag is set.
\<close>

theorem no_second_request_while_loading:
  assumes "run initial_world es = Some w"
  shows "(isLoading (app w) \<longrightarrow> fire w OcrClick = None \<and> fire w AnalyzeClick = None)
         \<and> ocr_in_flight w + analyze_in_flight w \<le> 1
         \<and> (0 < ocr_in_flight w + analyze_in_flight w \<longrightarrow> isLoading (app w))"
proof -
  from single_flight_initial assms have "single_flight w" by (rule single_flight_run)
  then show ?thesis by (auto simp: single_flight_def)
qed

theorem no_second_request_while_loading_witness:
  "run initial_world ocr_sent = Some (after ocr_sent)
   \<and> isLoading (app (after ocr_sent))
   \<and> ocr_in_flight (after ocr_sent) = 1
   \<and> fire (after ocr_sent) OcrClick = None
   \<and> fire (after ocr_sent) AnalyzeClick = None"
proof -
  have r: "run initial_world ocr_sent = Some (after ocr_sent)" by code_simp
  have l: "isLoading (app (after ocr_sent))" by code_simp
  have n: "ocr_in_flight (after ocr_sent) = 1" by code_simp
  from no_second_request_while_loading [OF r]
  show ?thesis using r l n by simp
qed

subsection \<open>Where the client is while a reply is awaited\<close>

lemma awaiting_stage_fire:
  assumes "single_flight w" and "awaiting_stage w" and "fire w e = Some w'"
  shows "awaiting_stage w'"
proof (cases e)
  case (FileSelect fo)
  with assms show ?thesis
    by (cases fo)
       (auto simp: awaiting_stage_def upload_visible_def handleFileSelect_def split: if_splits)
next
  case (WeightInput v)
  with assms show ?thesis by (auto simp: awaiting_stage_def split: if_splits)
next
  case OcrClick
  with assms show ?thesis
    by (auto simp: awaiting_stage_def single_flight_def review_visible_def
        split: if_splits option.splits dest!: handleOCR_begin_Some)
next
  case ReselectClick
  with assms show ?thesis by (auto simp: awaiting_stage_def reselect_def split: if_splits)
next
  case (OcrReply r)
  with assms show ?thesis
    by (auto simp: awaiting_stage_def single_flight_def split: if_splits)
next
  case (VitalInput k v)
  with assms show ?thesis by (auto simp: awaiting_stage_def split: if_splits)
next
  case (AnesthesiaInput k v)
  with assms show ?thesis by (auto simp: awaiting_stage_def split: if_splits)
next
  case AnalyzeClick
  with assms show ?thesis
    by (auto simp: awaiting_stage_def single_flight_def supplement_visible_def
        split: if_splits option.splits dest!: handleAnalyze_begin_Some)
next
  case ResetClick
  with assms show ?thesis by (auto simp: awaiting_stage_def handleReset_def split: if_splits)
next
  case (AnalyzeReply r)
  with assms show ?thesis
    by (auto simp: awaiting_stage_def single_flight_def split: if_splits)
qed

lemma awaiting_stage_run:
  "single_flight w \<Longrightarrow> awaiting_stage w \<Longrightarrow> run w es = Some w' \<Longrightarrow> awaiting_stage w'"
proof (induction es arbitrary: w)
  case Nil
  then show ?case by simp
next
  case (Cons e es)
  from Cons.prems(3) obtain w1 where f: "fire w e = Some w1" and r: "run w1 es = Some w'"
    by (auto split: option.splits)
  from Cons.prems(1) f have s: "single_flight w1" by (rule single_flight_fire)
  from Cons.prems(1,2) f have a: "awaiting_stage w1" by (rule awaiting_stage_fire)
  from s a r show ?case by (rule Cons.IH)
qed

lemma awaiting_stage_initial: "awaiting_stage initial_world"
  by (simp add: awaiting_stage_def initial_world_def)

text \<open>
  C4, as amended. In every world the events can lead to, the step changes only in these
  ways: from upload to review when a file is selected; from review to upload by the back
  button; to the supplement stage when an OCR reply that reports success arrives, from
  review or, when the back button was pressed meanwhile, from upload; to the result
  stage when the body of an analysis reply has been parsed, whatever it says, from the
  supplement stage or, after a reset meanwhile, from upload or review; and from the
  supplement or the result stage to upload by reset.
\<close>

theorem stage_changes:
  assumes "run initial_world es = Some w"
    and "fire w e = Some w'"
    and "step (app w') \<noteq> step (app w)"
  shows "(\<exists>f. e = FileSelect (Some f) \<and> step (app w) = Upload \<and> step (app w') = Review)
         \<or> (e = ReselectClick \<and> step (app w) = Review \<and> step (app w') = Upload)
         \<or> (\<exists>r. e = OcrReply r \<and> reports_success r
                \<and> (step (app w) = Review \<or> step (app w) = Upload) \<and> step (app w') = Input)
         \<or> (\<exists>d. e = AnalyzeReply (Parsed d)
                \<and> (step (app w) = Input \<or> step (app w) = Upload \<or> step (app w) = Review)
                \<and> step (app w') = Result)
         \<or> (e = ResetClick \<and> (step (app w) = Input \<or> step (app w) = Result)
                \<and> step (app w') = Upload)"
proof -
  from single_flight_initial assms(1) have sf: "single_flight w" by (rule single_flight_run)
  from single_flight_initial awaiting_stage_initial assms(1) have aw: "awaiting_stage w"
    by (rule awaiting_stage_run)
  show ?thesis
  proof (cases e)
    case (FileSelect fo)
    with assms(2,3) show ?thesis
      by (cases fo) (auto simp: upload_visible_def handleFileSelect_def split: if_splits)
  next
    case (WeightInput v)
    with assms(2,3) show ?thesis by (auto split: if_splits)
  next
    case OcrClick
    with assms(2,3) show ?thesis
      by (auto split: if_splits option.splits dest!: handleOCR_begin_Some)
  next
    case ReselectClick
    with assms(2,3) show ?thesis
      by (auto simp: review_visible_def reselect_def split: if_splits)
  next
    case (OcrReply r)
    with assms(2,3) aw show ?thesis
      by (auto simp: handleOCR_reply_step awaiting_stage_def split: if_splits)
  next
    case (VitalInput k v)
    with assms(2,3) show ?thesis by (auto split: if_splits)
  next
    case (AnesthesiaInput k v)
    with assms(2,3) show ?thesis by (auto split: if_splits)
  next
    case AnalyzeClick
    with assms(2,3) show ?thesis
      by (auto split: if_splits option.splits dest!: handleAnalyze_begin_Some)
  next
    case ResetClick
    with assms(2,3) show ?thesis
      by (auto simp: supplement_visible_def result_visible_def handleReset_def split: if_splits)
  next
    case (AnalyzeReply r)
    with assms(2,3) aw show ?thesis
      by (cases r; cases "step (app w)")
         (auto simp: handleAnalyze_reply_def awaiting_stage_def split: if_splits)
  qed
qed

theorem stage_changes_witness:
  "run initial_world ocr_sent = Some (after ocr_sent)
   \<and> fire (after ocr_sent) (OcrReply example_ok_reply)
       = Some (after (ocr_sent @ [OcrReply example_ok_reply]))
   \<and> step (app (after ocr_sent)) = Review
   \<and> step (app (after (ocr_sent @ [OcrReply example_ok_reply]))) = Input
   \<and> reports_success example_ok_reply"
proof -
  have r: "run initial_world ocr_sent = Some (after ocr_sent)" by code_simp
  have f: "fire (after ocr_sent) (OcrReply example_ok_reply)
           = Some (after (ocr_sent @ [OcrReply example_ok_reply]))" by code_simp
  have a: "step (app (after ocr_sent)) = Review" by code_simp
  have b: "step (app (after (ocr_sent @ [OcrReply example_ok_reply]))) = Input" by code_simp
  have c: "step (app (after (ocr_sent @ [OcrReply example_ok_reply]))) \<noteq> step (app (after ocr_sent))"
    by (simp add: a b)
  from stage_changes [OF r f c]
  show ?thesis using r f a b by auto
qed

text \<open>
  C4 as stated fails: with an OCR request in flight the back button leads to upload,
  and the successful reply then changes the step from upload to the supplement stage,
  which is none of the specified transitions.
\<close>

theorem stale_ocr_reply_leaves_upload:
  "run initial_world ocr_sent_then_back = Some (after ocr_sent_then_back)
   \<and> step (app (after ocr_sent_then_back)) = Upload
   \<and> fire (after ocr_sent_then_back) (OcrReply example_ok_reply)
       = Some (after (ocr_sent_then_back @ [OcrReply example_ok_reply]))
   \<and> step (app (after (ocr_sent_then_back @ [OcrReply example_ok_reply]))) = Input
   \<and> \<not> specified_transition Upload (OcrReply example_ok_reply) Input"
  by code_simp

subsection \<open>The supplement stage\<close>

lemma run_snoc:
  "run w (es @ [e]) = (case run w es of None \<Rightarrow> None | Some w1 \<Rightarrow> fire w1 e)"
  by (induction es arbitrary: w) (auto split: option.splits)

lemma progress_snoc: "progress (es @ [e]) = advance e (progress es)"
  by (simp add: progress_def)

lemma advance_bounds: "p \<le> 3 \<Longrightarrow> p \<le> advance e p \<and> advance e p \<le> 3"
  by (cases "(e, p)" rule: advance.cases) auto

lemma stage_progress_fire:
  assumes "stage_progress es w" and "fire w e = Some w'"
  shows "stage_progress (es @ [e]) w'"
proof -
  from assms(1) have le: "progress es \<le> 3" by (simp add: stage_progress_def)
  note b = advance_bounds [OF le, of e]
  show ?thesis
  proof (cases e)
    case (FileSelect fo)
    with assms b show ?thesis
      by (cases fo)
         (auto simp: stage_progress_def progress_snoc upload_visible_def handleFileSelect_def
            split: if_splits)
  next
    case (WeightInput v)
    with assms show ?thesis by (auto simp: stage_progress_def progress_snoc split: if_splits)
  next
    case OcrClick
    with assms show ?thesis
      by (auto simp: stage_progress_def progress_snoc review_visible_def
          split: if_splits option.splits dest!: handleOCR_begin_Some)
  next
    case ReselectClick
    with assms show ?thesis
      by (auto simp: stage_progress_def progress_snoc reselect_def split: if_splits)
  next
    case (OcrReply r)
    with assms show ?thesis
      by (auto simp: stage_progress_def progress_snoc handleOCR_reply_step split: if_splits)
  next
    case (VitalInput k v)
    with assms show ?thesis by (auto simp: stage_progress_def progress_snoc split: if_splits)
  next
    case (AnesthesiaInput k v)
    with assms show ?thesis by (auto simp: stage_progress_def progress_snoc split: if_splits)
  next
    case AnalyzeClick
    with assms show ?thesis
      by (auto simp: stage_progress_def progress_snoc
          split: if_splits option.splits dest!: handleAnalyze_begin_Some)
  next
    case ResetClick
    with assms show ?thesis
      by (auto simp: stage_progress_def progress_snoc handleReset_def split: if_splits)
  next
    case (AnalyzeReply r)
    with assms show ?thesis
      by (cases r)
         (auto simp: stage_progress_def progress_snoc handleAnalyze_reply_def split: if_splits)
  qed
qed

lemma stage_progress_run:
  "run initial_world es = Some w \<Longrightarrow> stage_progress es w"
proof (induction es arbitrary: w rule: rev_induct)
  case Nil
  then have "w = initial_world" by simp
  then show ?case
    by (simp add: stage_progress_def progress_def initial_world_def initial_state_def)
next
  case (snoc e es)
  from snoc.prems obtain w1 where r: "run initial_world es = Some w1" and f: "fire w1 e = Some w"
    by (auto simp: run_snoc split: option.splits)
  from snoc.IH [OF r] f show ?case by (rule stage_progress_fire)
qed

lemma input_has_reading_fire:
  assumes "input_has_reading w" and "carries_reading e" and "fire w e = Some w'"
  shows "input_has_reading w'"
proof (cases e)
  case (FileSelect fo)
  with assms show ?thesis
    by (cases fo)
       (auto simp: input_has_reading_def upload_visible_def handleFileSelect_def split: if_splits)
next
  case (WeightInput v)
  with assms show ?thesis by (auto simp: input_has_reading_def split: if_splits)
next
  case OcrClick
  with assms show ?thesis
    by (auto simp: input_has_reading_def split: if_splits option.splits
        dest!: handleOCR_begin_Some)
next
  case ReselectClick
  with assms show ?thesis by (auto simp: input_has_reading_def reselect_def split: if_splits)
next
  case (OcrReply r)
  with assms show ?thesis
    by (auto simp: input_has_reading_def handleOCR_reply_step handleOCR_reply_ocrResult
        split: if_splits)
next
  case (VitalInput k v)
  with assms show ?thesis by (auto simp: input_has_reading_def split: if_splits)
next
  case (AnesthesiaInput k v)
  with assms show ?thesis by (auto simp: input_has_reading_def split: if_splits)
next
  case AnalyzeClick
  with assms show ?thesis
    by (auto simp: input_has_reading_def split: if_splits option.splits
        dest!: handleAnalyze_begin_Some)
next
  case ResetClick
  with assms show ?thesis by (auto simp: input_has_reading_def handleReset_def split: if_splits)
next
  case (AnalyzeReply r)
  with assms show ?thesis
    by (cases r) (auto simp: input_has_reading_def handleAnalyze_reply_def split: if_splits)
qed

lemma input_has_reading_run:
  "input_has_reading w \<Longrightarrow> \<forall>e \<in> set es. carries_reading e \<Longrightarrow> run w es = Some w'
   \<Longrightarrow> input_has_reading w'"
proof (induction es arbitrary: w)
  case Nil
  then show ?case by simp
next
  case (Cons e es)
  from Cons.prems(3) obtain w1 where f: "fire w e = Some w1" and r: "run w1 es = Some w'"
    by (auto split: option.splits)
  from Cons.prems(2) have ce: "carries_reading e" and rest: "\<forall>x \<in> set es. carries_reading x"
    by simp_all
  from Cons.prems(1) ce f have "input_has_reading w1" by (rule input_has_reading_fire)
  from this rest r show ?case by (rule Cons.IH)
qed

text \<open>
  C5, as amended. In every world the events can lead to: the supplement panel is on the
  page only when the OCR result is truthy; if every OCR reply that reported success
  carried a truthy \<^verbatim>\<open>ocr_result\<close>, the step is the supplement stage only with a
  truthy OCR result; and the step is the supplement stage only after a file selection,
  an OCR click after it and a successful OCR reply after that.
\<close>

theorem supplement_needs_reading:
  assumes "run initial_world es = Some w"
  shows "(supplement_visible (app w) \<longrightarrow> truthy (ocrResult (app w)))
         \<and> ((\<forall>e \<in> set es. carries_reading e) \<longrightarrow> step (app w) = Input \<longrightarrow>
              truthy (ocrResult (app w)))
         \<and> (step (app w) = Input \<longrightarrow> progress es = 3)"
proof (intro conjI impI)
  assume "supplement_visible (app w)"
  then show "truthy (ocrResult (app w))" by (simp add: supplement_visible_def)
next
  assume c: "\<forall>e \<in> set es. carries_reading e" and i: "step (app w) = Input"
  have "input_has_reading initial_world"
    by (simp add: input_has_reading_def initial_world_def initial_state_def)
  from this c assms have "input_has_reading w" by (rule input_has_reading_run)
  with i show "truthy (ocrResult (app w))" by (simp add: input_has_reading_def)
next
  assume i: "step (app w) = Input"
  from assms have "stage_progress es w" by (rule stage_progress_run)
  with i show "progress es = 3" by (simp add: stage_progress_def)
qed

theorem supplement_needs_reading_witness:
  "run initial_world (ocr_sent @ [OcrReply example_ok_reply])
     = Some (after (ocr_sent @ [OcrReply example_ok_reply]))
   \<and> list_all carries_reading (ocr_sent @ [OcrReply example_ok_reply])
   \<and> step (app (after (ocr_sent @ [OcrReply example_ok_reply]))) = Input
   \<and> supplement_visible (app (after (ocr_sent @ [OcrReply example_ok_reply])))
   \<and> truthy (ocrResult (app (after (ocr_sent @ [OcrReply example_ok_reply]))))
   \<and> progress (ocr_sent @ [OcrReply example_ok_reply]) = 3"
proof -
  have r: "run initial_world (ocr_sent @ [OcrReply example_ok_reply])
           = Some (after (ocr_sent @ [OcrReply example_ok_reply]))" by code_simp
  have l: "list_all carries_reading (ocr_sent @ [OcrReply example_ok_reply])" by code_simp
  then have c: "\<forall>e \<in> set (ocr_sent @ [OcrReply example_ok_reply]). carries_reading e"
    by (simp only: list_all_iff)
  have i: "step (app (after (ocr_sent @ [OcrReply example_ok_reply]))) = Input" by code_simp
  have v: "supplement_visible (app (after (ocr_sent @ [OcrReply example_ok_reply])))" by code_simp
  from supplement_needs_reading [OF r]
  show ?thesis using r l c i v by simp
qed

text \<open>
  C5 as stated fails: a reply with a truthy \<^verbatim>\<open>success\<close> and no \<^verbatim>\<open>ocr_result\<close>
  leads to the supplement stage with an undefined OCR result.
\<close>

theorem success_without_reading_reaches_supplement:
  "run initial_world (ocr_sent @ [OcrReply example_bare_success])
     = Some (after (ocr_sent @ [OcrReply example_bare_success]))
   \<and> reports_success example_bare_success
   \<and> step (app (after (ocr_sent @ [OcrReply example_bare_success]))) = Input
   \<and> ocrResult (app (after (ocr_sent @ [OcrReply example_bare_success]))) = JUndefined"
  by code_simp

subsection \<open>Replies that arrive late\<close>

text \<open>
  C7, as amended. Neither reset nor the back button takes a request out of flight.
  When the reply arrives it is applied to the state of that moment as to any other: a
  parsed analysis reply is stored and the step becomes result, a successful OCR reply's
  reading is stored and the step becomes the supplement stage.
\<close>

theorem late_reply_is_applied:
  "(fire w ResetClick = Some w' \<longrightarrow>
      ocr_in_flight w' = ocr_in_flight w \<and> analyze_in_flight w' = analyze_in_flight w)
   \<and> (fire w ReselectClick = Some w' \<longrightarrow>
      ocr_in_flight w' = ocr_in_flight w \<and> analyze_in_flight w' = analyze_in_flight w)
   \<and> (0 < analyze_in_flight w \<longrightarrow>
        fire w (AnalyzeReply (Parsed d))
        = Some (w\<lparr>app := (app w)\<lparr>analysisResult := d, step := Result, isLoading := False\<rparr>,
                  analyze_in_flight := analyze_in_flight w - 1\<rparr>))
   \<and> (0 < ocr_in_flight w \<longrightarrow> reports_success r \<longrightarrow>
        fire w (OcrReply r)
        = Some (w\<lparr>app := (app w)\<lparr>ocrResult := reading_of r, step := Input, isLoading := False\<rparr>,
                  ocr_in_flight := ocr_in_flight w - 1\<rparr>))"
  by (auto simp: handleAnalyze_reply_def handleOCR_reply_success split: if_splits)

theorem late_reply_is_applied_witness:
  "fire (after analysis_sent) ResetClick = Some (after (analysis_sent @ [ResetClick]))
   \<and> step (app (after (analysis_sent @ [ResetClick]))) = Upload
   \<and> analyze_in_flight (after (analysis_sent @ [ResetClick])) = 1
   \<and> fire (after (analysis_sent @ [ResetClick])) (AnalyzeReply (Parsed example_analysis))
       = Some ((after (analysis_sent @ [ResetClick]))
            \<lparr>app := (app (after (analysis_sent @ [ResetClick])))
                     \<lparr>analysisResult := example_analysis, step := Result, isLoading := False\<rparr>,
              analyze_in_flight := 0\<rparr>)
   \<and> fire (after ocr_sent) ReselectClick = Some (after ocr_sent_then_back)
   \<and> ocr_in_flight (after ocr_sent_then_back) = 1
   \<and> reports_success example_ok_reply
   \<and> fire (after ocr_sent_then_back) (OcrReply example_ok_reply)
       = Some ((after ocr_sent_then_back)
            \<lparr>app := (app (after ocr_sent_then_back))
                     \<lparr>ocrResult := example_reading, step := Input, isLoading := False\<rparr>,
              ocr_in_flight := 0\<rparr>)"
proof -
  have a: "fire (after analysis_sent) ResetClick = Some (after (analysis_sent @ [ResetClick]))"
    by code_simp
  have a1: "analyze_in_flight (after analysis_sent) = 1" by code_simp
  have a2: "ocr_in_flight (after analysis_sent) = 0" by code_simp
  have a3: "step (app (after (analysis_sent @ [ResetClick]))) = Upload" by code_simp
  have b: "fire (after ocr_sent) ReselectClick = Some (after ocr_sent_then_back)"
    by code_simp
  have b1: "ocr_in_flight (after ocr_sent) = 1" by code_simp
  have c: "reports_success example_ok_reply" by code_simp
  have d: "reading_of example_ok_reply = example_reading" by code_simp
  from late_reply_is_applied [of "after analysis_sent" "after (analysis_sent @ [ResetClick])"
      example_analysis example_ok_reply]
    late_reply_is_applied [of "after (analysis_sent @ [ResetClick])"
      "after (analysis_sent @ [ResetClick])" example_analysis example_ok_reply]
    late_reply_is_applied [of "after ocr_sent" "after ocr_sent_then_back"
      example_analysis example_ok_reply]
    late_reply_is_applied [of "after ocr_sent_then_back" "after ocr_sent_then_back"
      example_analysis example_ok_reply]
  show ?thesis using a a1 a2 a3 b b1 c d by simp
qed

text \<open>
  C7 as stated fails: an analysis reply that arrives after a reset is stored and the
  result panel shows it; an OCR reply that arrives after the back button is stored and
  the supplement panel shows it.
\<close>

theorem stale_replies_are_stored_and_shown:
  "fire (after analysis_sent) ResetClick = Some (after (analysis_sent @ [ResetClick]))
   \<and> analysisResult (app (after (analysis_sent @ [ResetClick]))) = JNull
   \<and> run initial_world (analysis_sent @ [ResetClick, AnalyzeReply (Parsed example_analysis)])
       = Some (after (analysis_sent @ [ResetClick, AnalyzeReply (Parsed example_analysis)]))
   \<and> analysisResult
        (app (after (analysis_sent @ [ResetClick, AnalyzeReply (Parsed example_analysis)])))
       = example_analysis
   \<and> result_visible
        (app (after (analysis_sent @ [ResetClick, AnalyzeReply (Parsed example_analysis)])))
   \<and> run initial_world (ocr_sent_then_back @ [OcrReply example_ok_reply])
       = Some (after (ocr_sent_then_back @ [OcrReply example_ok_reply]))
   \<and> ocrResult (app (after (ocr_sent_then_back @ [OcrReply example_ok_reply]))) = example_reading
   \<and> supplement_visible (app (after (ocr_sent_then_back @ [OcrReply example_ok_reply])))"
  by code_simp

subsection \<open>A value of zero on the supplement panel\<close>

lemma truthiness_guard_drops_zero:
  "field_of ocr k = JNum 0 \<Longrightarrow> show_field ocr k l = Plain (JNum 0)"
  by (simp add: show_field_def js_and_def)

lemma show_be_keeps_zero:
  "field_of ocr ''be_ecf'' = JNum 0 \<Longrightarrow> show_be ocr = Element (Labelled ''BE'' (JNum 0))"
  by (simp add: show_be_def)

text \<open>
  C9. On a reading with pH 7.4, PO2 0, lactate 0 and base excess 0, the pH and the
  base excess are shown under their labels, the PO2 and the lactate are not: their
  places hold the plain number, as an absent field's place holds the plain
  \<^verbatim>\<open>undefined\<close>.
\<close>

theorem zero_fields_are_not_shown:
  "reading_children example_zero_reading
   = [Element (Labelled ''pH'' (JNum (74 / 10))), Plain (JNum 0), Plain JUndefined,
      Element (Labelled ''BE'' (JNum 0)),
      Plain JUndefined, Plain JUndefined, Plain JUndefined, Plain JUndefined,
      Plain (JNum 0), Plain JUndefined]
   \<and> prints_nothing (Plain JUndefined)
   \<and> \<not> prints_nothing (Plain (JNum 0))"
  by code_simp

subsection \<open>The acid correction\<close>

text \<open>
  C1, as amended. For every weight above 0, base excess below -2 and pH below 7.35,
  the acid correction is a dose whose NaHCO3 in mmol is 0.3 times the weight times the
  magnitude of the base excess and whose volume of 5% solution is that amount divided
  by 0.595. The correction is a function of its inputs, so equal inputs give equal
  results.
\<close>

theorem acid_dose_formula:
  assumes "0 < w" and "b < - 2" and "p < 735 / 100"
  shows "acid_correction (Some w) (Some p) (Some b)
         = Dose \<lparr>basis_weight = w, basis_base_excess = b,
                 calculated_na_hco3_mmol = 3 / 10 * w * \<bar>b\<bar>,
                 nahco3_5_percent_ml = (3 / 10 * w * \<bar>b\<bar>) / (595 / 1000)\<rparr>"
  using assms
  by (simp add: acid_correction_def distribution_volume_def nahco3_mmol_per_ml_def)

theorem acid_dose_formula_witness:
  "(0::rat) < 70 \<and> (- 10::rat) < - 2 \<and> (72 / 10 :: rat) < 735 / 100
   \<and> acid_correction (Some 70) (Some (72 / 10)) (Some (- 10))
       = Dose \<lparr>basis_weight = 70, basis_base_excess = - 10,
               calculated_na_hco3_mmol = 210, nahco3_5_percent_ml = 6000 / 17\<rparr>"
proof -
  have w: "(0::rat) < 70" and b: "(- 10::rat) < - 2" and p: "(72 / 10 :: rat) < 735 / 100"
    by simp_all
  from acid_dose_formula [OF w b p] show ?thesis by simp
qed

text \<open>
  C1 as stated fails: with a pH of 7.40 the correction does not apply, whatever the
  weight and the base excess are.
\<close>

theorem no_dose_at_normal_ph:
  "acid_correction (Some 70) (Some (74 / 10)) (Some (- 10)) = NotApplicable"
  by (simp add: acid_correction_def)

end
